theory Spec2Isabelle
  imports Complex_Main
begin

section \<open>Python strings\<close>

text \<open>
  A Python \<open>str\<close> is a sequence of Unicode code points, and \<open>len\<close> counts code
  points; so a string is a list of code points here.  \<open>str\<close> turns an ASCII literal
  into its code points.

  The character classes that the regular expressions of the program use are the ones of
  CPython's \<open>re\<close> on \<open>str\<close> patterns: \<open>\s\<close> is \<open>str.isspace\<close> and \<open>\d\<close> is the Unicode
  category Nd (table of Unicode 14).  The case mappings of \<open>str\<close> (\<open>lower\<close>, \<open>title\<close>) and
  the functions of \<open>urllib.parse\<close> are library code with tables of their own: where the
  program calls them, the model takes them as parameters, and what is proved holds for
  every function in their place.
\<close>

type_synonym pystr = "nat list"

definition str :: "string \<Rightarrow> pystr" where
  "str cs = map of_char cs"

definition isspace :: "nat \<Rightarrow> bool" where
  "isspace c =
     (9 \<le> c \<and> c \<le> 13 \<or> 28 \<le> c \<and> c \<le> 32 \<or> c = 133 \<or> c = 160 \<or> c = 5760
      \<or> 8192 \<le> c \<and> c \<le> 8202 \<or> c = 8232 \<or> c = 8233 \<or> c = 8239 \<or> c = 8287
      \<or> c = 12288)"

definition nd_blocks :: "nat list" where
  "nd_blocks =
     [48, 1632, 1776, 1984, 2406, 2534, 2662, 2790, 2918, 3046, 3174, 3302, 3430, 3558,
      3664, 3792, 3872, 4160, 4240, 6112, 6160, 6470, 6608, 6784, 6800, 6992, 7088, 7232,
      7248, 42528, 43216, 43264, 43472, 43504, 43600, 44016, 65296, 66720, 68912, 69734,
      69872, 69942, 70096, 70384, 70736, 70864, 71248, 71360, 71472, 71904, 72016, 72784,
      73040, 73120, 92768, 92864, 93008, 120782, 120792, 120802, 120812, 120822, 123200,
      123632, 125264, 130032]"

definition isdecimal :: "nat \<Rightarrow> bool" where
  "isdecimal c = list_ex (\<lambda>b. b \<le> c \<and> c < b + 10) nd_blocks"

definition py_strip :: "pystr \<Rightarrow> pystr" where
  "py_strip s = rev (dropWhile isspace (rev (dropWhile isspace s)))"

text \<open>\<open>s.startswith(p)\<close>.\<close>

fun startswith :: "pystr \<Rightarrow> pystr \<Rightarrow> bool" where
  "startswith s [] = True"
| "startswith [] (p # ps) = False"
| "startswith (c # cs) (p # ps) = (c = p \<and> startswith cs ps)"

text \<open>\<open>p in s\<close> on strings: \<open>p\<close> occurs in \<open>s\<close> as a substring.\<close>

fun str_in :: "pystr \<Rightarrow> pystr \<Rightarrow> bool" where
  "str_in p [] = (p = [])"
| "str_in p (c # cs) = (startswith (c # cs) p \<or> str_in p cs)"

text \<open>\<open>s.replace(m, '')\<close> for a marker \<open>m\<close> of one character.\<close>

definition remove_char :: "nat \<Rightarrow> pystr \<Rightarrow> pystr" where
  "remove_char m s = filter (\<lambda>c. c \<noteq> m) s"



text \<open>\<open>sep.join(parts)\<close>.\<close>

fun join :: "pystr \<Rightarrow> pystr list \<Rightarrow> pystr" where
  "join sep [] = []"
| "join sep [p] = p"
| "join sep (p # q # ps) = p @ sep @ join sep (q # ps)"

text \<open>\<open>str(n)\<close> for a length or a count.\<close>

fun digits_of :: "nat \<Rightarrow> nat \<Rightarrow> pystr" where
  "digits_of 0 n = []"
| "digits_of (Suc fuel) n =
     (if n < 10 then [48 + n] else digits_of fuel (n div 10) @ [48 + n mod 10])"

definition str_of_nat :: "nat \<Rightarrow> pystr" where
  "str_of_nat n = digits_of (Suc n) n"

section \<open>Dictionaries in insertion order\<close>

text \<open>
  A Python \<open>dict\<close> keeps its keys in insertion order, and the order of the modules in the
  output is that order.  A dictionary is an association list with distinct keys:
  assigning to a present key replaces its value in place, assigning to a new key appends.
\<close>

type_synonym ('k, 'v) pydict = "('k \<times> 'v) list"

definition dict_keys :: "('k, 'v) pydict \<Rightarrow> 'k list" where
  "dict_keys d = map fst d"


fun dict_set :: "('k, 'v) pydict \<Rightarrow> 'k \<Rightarrow> 'v \<Rightarrow> ('k, 'v) pydict" where
  "dict_set [] k v = [(k, v)]"
| "dict_set ((k', v') # d) k v =
     (if k' = k then (k, v) # d else (k', v') # dict_set d k v)"

section \<open>Parsed pages\<close>

text \<open>The dictionaries that \<open>ContentParser.parse\<close> returns (\<open>pulse/parser.py\<close>).\<close>

record pheading =
  ph_level :: int
  ph_text :: pystr
  ph_id :: pystr
  ph_tag :: pystr

record content_block =
  cb_type :: pystr
  cb_text :: pystr
  cb_tag :: pystr

record parsed_page =
  pp_url :: pystr
  pp_title :: pystr
  pp_headings :: "pheading list"
  pp_content_blocks :: "content_block list"
  pp_text :: pystr

section \<open>Hierarchy inference (\<open>pulse/inference.py\<close>)\<close>

text \<open>A heading of \<open>all_headings\<close>: level, text, the page it comes from, anchor id.\<close>

record heading =
  h_level :: int
  h_text :: pystr
  h_url :: pystr
  h_id :: pystr

text \<open>An entry of \<open>page_content_map\<close>.\<close>

record page_content =
  pc_text :: pystr
  pc_headings :: "pheading list"
  pc_content_blocks :: "content_block list"

text \<open>
  A module of the inferred hierarchy.  The key \<open>'description'\<close> is absent until the
  pipeline sets it, so it is optional.
\<close>

record module_data =
  m_submodules :: "(pystr, pystr) pydict"
  m_content :: pystr
  m_url :: pystr
  m_description :: "pystr option"

type_synonym modules = "(pystr, module_data) pydict"

subsection \<open>\<open>_clean_heading\<close>\<close>

text \<open>\<open>\.?\<close> at the head of \<open>r\<close>.\<close>

fun opt_dot :: "pystr \<Rightarrow> pystr" where
  "opt_dot [] = []"
| "opt_dot (c # cs) = (if c = 46 then cs else c # cs)"

text \<open>
  \<open>re.sub(r'^\d+\.?\d*\.?\d*\s*', '', text)\<close>.  The pattern is anchored at the start of the
  text and needs one digit; every later part is optional and greedy, so the match is
  the greedy one and there is at most one match.
\<close>

fun strip_outline :: "pystr \<Rightarrow> pystr" where
  "strip_outline [] = []"
| "strip_outline (c # cs) =
     (if isdecimal c
      then dropWhile isspace
             (dropWhile isdecimal (opt_dot (dropWhile isdecimal (opt_dot (dropWhile isdecimal cs)))))
      else c # cs)"

text \<open>The markers \<open>#\<close>, \<open>*\<close>, U+2192, U+25BA and U+25BC.\<close>

definition markers :: "nat list" where
  "markers = [35, 42, 8594, 9658, 9660]"

definition clean_heading :: "pystr \<Rightarrow> pystr" where
  "clean_heading text0 =
     (let t1 = py_strip text0;
          t2 = strip_outline t1;
          t3 = foldl (\<lambda>t m. py_strip (remove_char m t)) t2 markers;
          t4 = (if length t3 > 100 then py_strip (take 100 t3) else t3)
      in py_strip t4)"


subsection \<open>\<open>_find_submodules_for_module\<close>\<close>




subsection \<open>\<open>_build_hierarchy\<close>\<close>








subsection \<open>\<open>_infer_from_urls_and_titles\<close>\<close>







subsection \<open>The three strategies in \<open>_build_hierarchy\<close>\<close>





section \<open>Description summarizer (\<open>pulse/summarizer.py\<close>)\<close>

subsection \<open>\<open>_clean_content\<close>\<close>

text \<open>
  \<open>re.sub(r'\s+', ' ', content)\<close>: every maximal run of white space becomes one space.
  The flag says that the character before was white space, whose run has its space
  already.
\<close>

fun collapse_ws :: "bool \<Rightarrow> pystr \<Rightarrow> pystr" where
  "collapse_ws in_run [] = []"
| "collapse_ws in_run (c # cs) =
     (if isspace c
      then (if in_run then collapse_ws True cs else 32 # collapse_ws True cs)
      else c # collapse_ws False cs)"

text \<open>
  A character \<open>pc\<close> of an ASCII pattern matches the character \<open>c\<close> under
  \<open>re.IGNORECASE\<close>: an ASCII letter matches its two cases, and i, k and s also match
  U+0130 and U+0131, U+212A, and U+017F.
\<close>

definition ci_eq :: "nat \<Rightarrow> nat \<Rightarrow> bool" where
  "ci_eq pc c =
     (c = pc
      \<or> 65 \<le> pc \<and> pc \<le> 90 \<and> c = pc + 32
      \<or> 97 \<le> pc \<and> pc \<le> 122 \<and> c + 32 = pc
      \<or> (pc = 105 \<or> pc = 73) \<and> (c = 304 \<or> c = 305)
      \<or> (pc = 107 \<or> pc = 75) \<and> c = 8490
      \<or> (pc = 115 \<or> pc = 83) \<and> c = 383)"

text \<open>The literal \<open>p\<close> matches at the start of the text, case-insensitively.\<close>

fun imatch :: "pystr \<Rightarrow> pystr \<Rightarrow> bool" where
  "imatch [] s = True"
| "imatch (p # ps) [] = False"
| "imatch (p # ps) (c # cs) = (ci_eq p c \<and> imatch ps cs)"

text \<open>
  \<open>re.sub(p + '.*', '', content, flags=re.IGNORECASE)\<close> for a literal \<open>p\<close> that is not
  empty.  The scan goes from left to right; where \<open>p\<close> matches, the match runs on to the
  next line feed (\<open>.\<close> matches every character but U+000A) and is deleted, and the scan
  goes on behind it.
\<close>

function sub_leadin :: "pystr \<Rightarrow> pystr \<Rightarrow> pystr" where
  "sub_leadin p [] = []"
| "sub_leadin p (c # cs) =
     (if p \<noteq> [] \<and> imatch p (c # cs)
      then sub_leadin p (dropWhile (\<lambda>x. x \<noteq> 10) (drop (length p) (c # cs)))
      else c # sub_leadin p cs)"
  by pat_completeness auto
termination
proof (relation "measure (\<lambda>(p, s). length s)")
  show "wf (measure (\<lambda>(p, s). length s))" by simp
next
  fix p :: pystr and c cs
  assume "p \<noteq> [] \<and> imatch p (c # cs)"
  then have "length (drop (length p) (c # cs)) < length (c # cs)" by (cases p) auto
  moreover have "length (dropWhile (\<lambda>x. x \<noteq> 10) (drop (length p) (c # cs)))
                   \<le> length (drop (length p) (c # cs))"
    by (rule length_dropWhile_le)
  ultimately show "((p, dropWhile (\<lambda>x. x \<noteq> 10) (drop (length p) (c # cs))), (p, c # cs))
          \<in> measure (\<lambda>(p, s). length s)"
    by simp
next
  fix p :: pystr and c cs
  show "((p, cs), (p, c # cs)) \<in> measure (\<lambda>(p, s). length s)" by simp
qed

text \<open>\<open>patterns_to_remove\<close>, without the \<open>.*\<close> that ends each of them.\<close>

definition noise_patterns :: "pystr list" where
  "noise_patterns =
     [str ''See also:'', str ''Related:'', str ''Note:'', str ''Warning:'', str ''Example:'',
      str ''For more information'', str ''Click here'', str ''Learn more'']"

text \<open>What follows \<open>http://\<close> or \<open>https://\<close> at the start of the text, if one of them
  stands there.\<close>

definition url_rest :: "pystr \<Rightarrow> pystr option" where
  "url_rest s =
     (if startswith s (str ''https://'') then Some (drop 8 s)
      else if startswith s (str ''http://'') then Some (drop 7 s)
      else None)"

text \<open>\<open>re.sub(r'https?://\S+', '', content)\<close>: the match needs one character that is
  not white space behind \<open>://\<close> and takes all of them.\<close>

function sub_url :: "pystr \<Rightarrow> pystr" where
  "sub_url [] = []"
| "sub_url (c # cs) =
     (case url_rest (c # cs) of
        Some r \<Rightarrow>
          if r \<noteq> [] \<and> \<not> isspace (hd r)
          then sub_url (dropWhile (\<lambda>x. \<not> isspace x) r)
          else c # sub_url cs
      | None \<Rightarrow> c # sub_url cs)"
  by pat_completeness auto
termination
proof (relation "measure length")
  show "wf (measure length)" by simp
next
  fix c cs r
  assume "url_rest (c # cs) = Some r"
  then have "length r < length (c # cs)"
    by (auto simp: url_rest_def split: if_splits)
  moreover have "length (dropWhile (\<lambda>x. \<not> isspace x) r) \<le> length r"
    by (rule length_dropWhile_le)
  ultimately show "(dropWhile (\<lambda>x. \<not> isspace x) r, c # cs) \<in> measure length" by simp
next
  fix c cs
  show "(cs, c # cs) \<in> measure length" by simp
next
  fix c cs
  show "(cs, c # cs) \<in> measure length" by simp
qed

text \<open>
  \<open>\S+@\S+\<close> matches at the start of a run of characters that are not white space when
  the run has an \<open>@\<close> with a character before it and a character behind it; both \<open>\S+\<close>
  are greedy, so the match is the whole run.
\<close>

definition email_match :: "pystr \<Rightarrow> bool" where
  "email_match tok = list_ex (\<lambda>j. tok ! j = 64) [1..<length tok - 1]"

text \<open>\<open>re.sub(r'\S+@\S+', '', content)\<close>.\<close>

function sub_email :: "pystr \<Rightarrow> pystr" where
  "sub_email [] = []"
| "sub_email (c # cs) =
     (if email_match (takeWhile (\<lambda>x. \<not> isspace x) (c # cs))
      then sub_email (dropWhile (\<lambda>x. \<not> isspace x) (c # cs))
      else c # sub_email cs)"
  by pat_completeness auto
termination
proof (relation "measure length")
  show "wf (measure length)" by simp
next
  fix c cs
  assume m: "email_match (takeWhile (\<lambda>x. \<not> isspace x) (c # cs))"
  have "\<not> isspace c"
  proof
    assume "isspace c"
    then have "takeWhile (\<lambda>x. \<not> isspace x) (c # cs) = []" by simp
    with m show False by (simp add: email_match_def)
  qed
  then have "dropWhile (\<lambda>x. \<not> isspace x) (c # cs) = dropWhile (\<lambda>x. \<not> isspace x) cs" by simp
  moreover have "length (dropWhile (\<lambda>x. \<not> isspace x) cs) \<le> length cs"
    by (rule length_dropWhile_le)
  ultimately show "(dropWhile (\<lambda>x. \<not> isspace x) (c # cs), c # cs) \<in> measure length" by simp
next
  fix c cs
  show "(cs, c # cs) \<in> measure length" by simp
qed

definition clean_content :: "pystr \<Rightarrow> pystr" where
  "clean_content content0 =
     (let content1 = py_strip (collapse_ws False content0);
          content2 = foldl (\<lambda>content pattern. sub_leadin pattern content) content1
                       noise_patterns;
          content3 = sub_url content2;
          content4 = sub_email content3
      in py_strip content4)"

subsection \<open>The names of a hierarchy\<close>


subsection \<open>\<open>_select_sentences\<close>\<close>

text \<open>
  The loop that puts the selected sentences back in the order of \<open>sentences\<close>:
  \<open>result\<close> takes every sentence that is \<open>in selected\<close>, a test on the text of the
  sentence, until it holds \<open>max_sentences\<close> of them.
\<close>

fun collect_selected :: "nat \<Rightarrow> pystr list \<Rightarrow> pystr list \<Rightarrow> pystr list \<Rightarrow> pystr list" where
  "collect_selected max_sentences selected result [] = result"
| "collect_selected max_sentences selected result (sent # sents) =
     (if sent \<in> set selected
      then (if length (result @ [sent]) \<ge> max_sentences then result @ [sent]
            else collect_selected max_sentences selected (result @ [sent]) sents)
      else collect_selected max_sentences selected result sents)"

text \<open>
  \<open>_score_sentence\<close> is the parameter \<open>score\<close>.  Its values are floats that are
  multiples of 0.5 between -3.5 and 3, which floats hold exactly; they are rationals
  here.  \<open>scored.sort(key=lambda x: x[0], reverse=True)\<close> is stable: pairs of one score
  keep their order, so it is a stable ascending sort on the negated score.
  \<open>max_sentences\<close> is the attribute of the summarizer, 3 in the pipeline.
\<close>

definition select_sentences :: "nat \<Rightarrow> (pystr \<Rightarrow> rat) \<Rightarrow> pystr list \<Rightarrow> pystr list" where
  "select_sentences max_sentences score sentences =
     (if sentences = [] then []
      else
        (let scored = map (\<lambda>sent. (score sent, sent)) (take 20 sentences);
             sorted_scored = sort_key (\<lambda>x. - fst x) scored;
             selected = map snd (take max_sentences sorted_scored);
             result = collect_selected max_sentences selected [] sentences
         in if result \<noteq> [] then result else take max_sentences sentences))"

subsection \<open>\<open>generate_description\<close>\<close>

text \<open>
  \<open>_extract_sentences\<close>, \<open>_score_sentence\<close> and \<open>_finalize_description\<close> are parameters
  of the model; \<open>min_length\<close> and \<open>max_sentences\<close> are the attributes of the summarizer,
  20 and 3 in the pipeline.
\<close>

definition generate_description ::
  "nat \<Rightarrow> nat \<Rightarrow> (pystr \<Rightarrow> pystr list) \<Rightarrow> (pystr \<Rightarrow> rat) \<Rightarrow> (pystr \<Rightarrow> pystr) \<Rightarrow> pystr \<Rightarrow> pystr" where
  "generate_description min_length max_sentences extract_sentences score
       finalize_description content =
     (if content = [] \<or> length (py_strip content) < min_length then []
      else
        (let cleaned = clean_content content;
             sentences = extract_sentences cleaned
         in if sentences = [] then []
            else finalize_description
                   (join [32] (select_sentences max_sentences score sentences))))"

section \<open>Pipeline (\<open>pulse/pipeline.py\<close>)\<close>

text \<open>
  What a call can raise: an instance of \<open>Exception\<close>, which \<open>except Exception\<close> catches,
  with the text \<open>str(e)\<close> that the handlers log, or an instance of \<open>BaseException\<close>
  outside \<open>Exception\<close> (\<open>KeyboardInterrupt\<close>, \<open>SystemExit\<close>), which it does not catch.
  A call returns \<open>Inr\<close> its value or \<open>Inl\<close> what it raises.
\<close>

datatype exc = Exception pystr | BaseException pystr

definition bind_res :: "exc + 'a \<Rightarrow> ('a \<Rightarrow> exc + 'b) \<Rightarrow> exc + 'b" where
  "bind_res r f = (case r of Inl e \<Rightarrow> Inl e | Inr x \<Rightarrow> f x)"

text \<open>A loop that calls \<open>f\<close> on every element and stops at the first that raises.\<close>

fun map_res :: "('a \<Rightarrow> exc + 'b) \<Rightarrow> 'a list \<Rightarrow> exc + 'b list" where
  "map_res f [] = Inr []"
| "map_res f (x # xs) =
     bind_res (f x) (\<lambda>y. bind_res (map_res f xs) (\<lambda>ys. Inr (y # ys)))"

text \<open>A module of the output list.\<close>

record out_module =
  om_module :: pystr
  om_description :: pystr
  om_submodules :: "(pystr, pystr) pydict"

subsection \<open>\<open>_format_output\<close>\<close>

text \<open>
  \<open>generate\<close> is \<open>self.summarizer.generate_description\<close>.  First the description of
  the module: the one that the module has, or a new one when it has none or an empty one.
\<close>

definition module_description ::
  "(pystr \<Rightarrow> exc + pystr) \<Rightarrow> module_data \<Rightarrow> exc + pystr" where
  "module_description generate module_data =
     (case m_description module_data of
        Some d \<Rightarrow> if d \<noteq> [] then Inr d else generate (m_content module_data)
      | None \<Rightarrow> generate (m_content module_data))"

text \<open>\<open>submodules_dict\<close>: the submodules whose description is not empty.\<close>

definition kept_submodules :: "module_data \<Rightarrow> (pystr, pystr) pydict" where
  "kept_submodules module_data =
     foldl (\<lambda>d sub. if snd sub \<noteq> [] then dict_set d (fst sub) (snd sub) else d)
       [] (m_submodules module_data)"

text \<open>The result for one module is the list of the records that the loop body appends:
  one or none.\<close>

definition format_module ::
  "(pystr \<Rightarrow> exc + pystr) \<Rightarrow> pystr \<times> module_data \<Rightarrow> exc + out_module list" where
  "format_module generate item =
     (let module_name = fst item; module_data = snd item in
      bind_res (module_description generate module_data)
        (\<lambda>module_desc.
           let submodules_dict = kept_submodules module_data
           in if module_desc \<noteq> [] \<or> submodules_dict \<noteq> []
              then Inr [\<lparr>om_module = module_name,
                         om_description =
                           (if module_desc \<noteq> [] then module_desc
                            else str ''Module for '' @ module_name),
                         om_submodules = submodules_dict\<rparr>]
              else Inr []))"

definition format_output ::
  "(pystr \<Rightarrow> exc + pystr) \<Rightarrow> modules \<Rightarrow> exc + out_module list" where
  "format_output generate modules_dict =
     bind_res (map_res (format_module generate) modules_dict) (\<lambda>outs. Inr (concat outs))"

subsection \<open>Step 4 of \<open>extract\<close>\<close>

text \<open>
  The search for the text of a page that has a heading with \<open>name\<close> in it: the loop over
  the pages stops at the first page with such a heading whose text is not empty.
  \<open>lower\<close> is \<open>str.lower\<close>.
\<close>

fun find_page_text :: "(pystr \<Rightarrow> pystr) \<Rightarrow> pystr \<Rightarrow> parsed_page list \<Rightarrow> pystr" where
  "find_page_text lower name [] = []"
| "find_page_text lower name (page # pages) =
     (if list_ex (\<lambda>heading. str_in (lower name) (lower (ph_text heading))) (pp_headings page)
         \<and> pp_text page \<noteq> []
      then pp_text page
      else find_page_text lower name pages)"

definition content_or_page ::
  "(pystr \<Rightarrow> pystr) \<Rightarrow> parsed_page list \<Rightarrow> pystr \<Rightarrow> pystr \<Rightarrow> pystr" where
  "content_or_page lower parsed_pages name content =
     (if content = [] then find_page_text lower name parsed_pages else content)"

text \<open>The body of the loop over the modules: the description of the module, then the
  description of each submodule in place of its content.\<close>

definition describe_module ::
  "(pystr \<Rightarrow> exc + pystr) \<Rightarrow> (pystr \<Rightarrow> pystr) \<Rightarrow> parsed_page list \<Rightarrow>
     pystr \<times> module_data \<Rightarrow> exc + (pystr \<times> module_data)" where
  "describe_module generate lower parsed_pages item =
     (let module_name = fst item; module_data = snd item in
      bind_res
        (generate (content_or_page lower parsed_pages module_name (m_content module_data)))
        (\<lambda>module_desc.
           bind_res
             (map_res
                (\<lambda>sub. bind_res
                          (generate (content_or_page lower parsed_pages (fst sub) (snd sub)))
                          (\<lambda>sub_desc. Inr (fst sub, sub_desc)))
                (m_submodules module_data))
             (\<lambda>subs. Inr (module_name,
                            module_data\<lparr>m_description := Some module_desc,
                                         m_submodules := subs\<rparr>))))"

definition describe_modules ::
  "(pystr \<Rightarrow> exc + pystr) \<Rightarrow> (pystr \<Rightarrow> pystr) \<Rightarrow> parsed_page list \<Rightarrow> modules \<Rightarrow>
     exc + modules" where
  "describe_modules generate lower parsed_pages modules_dict =
     map_res (describe_module generate lower parsed_pages) modules_dict"

subsection \<open>\<open>extract\<close>\<close>

text \<open>\<open>_log\<close> appends \<open>f"[{level}] {message}"\<close> to \<open>self.logs\<close>.\<close>

definition log_entry :: "pystr \<Rightarrow> pystr \<Rightarrow> pystr" where
  "log_entry level message = str ''['' @ level @ str ''] '' @ message"

definition info :: "pystr \<Rightarrow> pystr" where
  "info message = log_entry (str ''INFO'') message"

definition warning :: "pystr \<Rightarrow> pystr" where
  "warning message = log_entry (str ''WARNING'') message"

definition error :: "pystr \<Rightarrow> pystr" where
  "error message = log_entry (str ''ERROR'') message"

text \<open>A page of the crawler, of which the pipeline reads the URL and the HTML.\<close>

record page =
  pg_url :: pystr
  pg_html :: pystr

text \<open>The dictionary that \<open>extract\<close> returns; the key \<open>'stats'\<close> (pages crawled, pages
  parsed, modules found) is there only when the run gets to its end.\<close>

record extraction =
  x_modules :: "out_module list"
  x_logs :: "pystr list"
  x_stats :: "(nat \<times> nat \<times> nat) option"

text \<open>
  Step 2.  The loop over the pages has a handler of its own: a page whose parsing raises
  an \<open>Exception\<close> is logged with a warning and left out.  What the loop returns when an
  exception leaves it is the exception and the log at that moment.
\<close>

fun parse_pages ::
  "(pystr \<Rightarrow> pystr \<Rightarrow> exc + parsed_page) \<Rightarrow> page list \<Rightarrow> parsed_page list \<Rightarrow> pystr list \<Rightarrow>
     (exc \<times> pystr list) + (parsed_page list \<times> pystr list)" where
  "parse_pages parse [] parsed_pages logs = Inr (parsed_pages, logs)"
| "parse_pages parse (p # pages) parsed_pages logs =
     (case parse (pg_html p) (pg_url p) of
        Inr parsed \<Rightarrow> parse_pages parse pages (parsed_pages @ [parsed]) logs
      | Inl (Exception e) \<Rightarrow>
          parse_pages parse pages parsed_pages
            (logs @ [warning (str ''Error parsing '' @ pg_url p @ str '': '' @ e)])
      | Inl (BaseException e) \<Rightarrow> Inl (BaseException e, logs))"

text \<open>
  The body of the \<open>try\<close> statement.  \<open>crawl\<close>, \<open>parse\<close>, \<open>infer_modules\<close> and \<open>generate\<close>
  are the calls of the crawler, the parser, the inference and the summarizer; each can
  raise.  The result is \<open>Inl\<close> the exception that leaves the body, with the log at that
  moment, or \<open>Inr\<close> the dictionary that the body returns.
\<close>

definition extract_body ::
  "(pystr list \<Rightarrow> exc + page list) \<Rightarrow> (pystr \<Rightarrow> pystr \<Rightarrow> exc + parsed_page) \<Rightarrow>
   (parsed_page list \<Rightarrow> exc + modules) \<Rightarrow> (pystr \<Rightarrow> exc + pystr) \<Rightarrow> (pystr \<Rightarrow> pystr) \<Rightarrow>
   pystr list \<Rightarrow> pystr list \<Rightarrow> (exc \<times> pystr list) + extraction" where
  "extract_body crawl parse infer_modules generate lower urls logs0 =
     (let logs1 = logs0 @ [info (str ''Step 1: Crawling URLs...'')] in
      case crawl urls of
        Inl e \<Rightarrow> Inl (e, logs1)
      | Inr pages \<Rightarrow>
          let logs2 = logs1 @ [info (str ''Crawled '' @ str_of_nat (length pages) @ str '' pages'')]
          in if pages = []
             then Inr \<lparr>x_modules = [],
                       x_logs = logs2 @ [warning (str
                         ''No pages were crawled. Check URLs and network connectivity.'')],
                       x_stats = None\<rparr>
             else
               (case parse_pages parse pages []
                       (logs2 @ [info (str ''Step 2: Parsing HTML content...'')]) of
                  Inl el \<Rightarrow> Inl el
                | Inr (parsed_pages, logs4) \<Rightarrow>
                    let logs5 = logs4 @ [info (str ''Parsed ''
                                  @ str_of_nat (length parsed_pages) @ str '' pages'')]
                    in if parsed_pages = []
                       then Inr \<lparr>x_modules = [],
                                 x_logs = logs5 @ [warning (str
                                   ''No pages were successfully parsed.'')],
                                 x_stats = None\<rparr>
                       else
                         (let logs6 = logs5 @ [info (str
                                        ''Step 3: Inferring modules and submodules...'')]
                          in case infer_modules parsed_pages of
                               Inl e \<Rightarrow> Inl (e, logs6)
                             | Inr modules_dict \<Rightarrow>
                                 let logs7 = logs6 @
                                       [info (str ''Inferred ''
                                          @ str_of_nat (length modules_dict) @ str '' modules''),
                                        info (str ''Step 4: Generating descriptions...'')]
                                 in case describe_modules generate lower parsed_pages
                                           modules_dict of
                                      Inl e \<Rightarrow> Inl (e, logs7)
                                    | Inr described \<Rightarrow>
                                        let logs8 = logs7 @
                                              [info (str ''Step 5: Formatting output...'')]
                                        in case format_output generate described of
                                             Inl e \<Rightarrow> Inl (e, logs8)
                                           | Inr output_modules \<Rightarrow>
                                               Inr \<lparr>x_modules = output_modules,
                                                     x_logs = logs8 @ [info (str
                                                       ''Extraction complete. Generated ''
                                                       @ str_of_nat (length output_modules)
                                                       @ str '' modules'')],
                                                     x_stats = Some (length pages,
                                                       length parsed_pages,
                                                       length output_modules)\<rparr>)))"

text \<open>
  \<open>ExtractionPipeline.extract\<close>: the handler \<open>except Exception\<close> of the \<open>try\<close> statement logs two errors,
  the second with the text of \<open>traceback.format_exc()\<close>, and returns no module.  What is
  not an \<open>Exception\<close> goes on to the caller.
\<close>

definition pipeline_extract ::
  "(pystr list \<Rightarrow> exc + page list) \<Rightarrow> (pystr \<Rightarrow> pystr \<Rightarrow> exc + parsed_page) \<Rightarrow>
   (parsed_page list \<Rightarrow> exc + modules) \<Rightarrow> (pystr \<Rightarrow> exc + pystr) \<Rightarrow> (pystr \<Rightarrow> pystr) \<Rightarrow>
   (pystr \<Rightarrow> pystr) \<Rightarrow> pystr list \<Rightarrow> exc + extraction" where
  "pipeline_extract crawl parse infer_modules generate lower format_exc urls =
     (case extract_body crawl parse infer_modules generate lower urls
             [info (str ''Starting extraction for '' @ str_of_nat (length urls)
                    @ str '' URL(s)'')] of
        Inr x \<Rightarrow> Inr x
      | Inl (Exception e, logs) \<Rightarrow>
          Inr \<lparr>x_modules = [],
               x_logs = logs @ [error (str ''Pipeline error: '' @ e), error (format_exc e)],
               x_stats = None\<rparr>
      | Inl (BaseException e, logs) \<Rightarrow> Inl (BaseException e))"

section \<open>Properties of heading cleaning\<close>

lemma length_py_strip_le: "length (py_strip s) \<le> length s"
proof -
  have "length (dropWhile isspace (rev (dropWhile isspace s)))
          \<le> length (rev (dropWhile isspace s))"
    by (rule length_dropWhile_le)
  moreover have "length (dropWhile isspace s) \<le> length s"
    by (rule length_dropWhile_le)
  ultimately show ?thesis by (simp add: py_strip_def)
qed

lemma set_py_strip: "set (py_strip s) \<subseteq> set s"
proof
  fix x assume "x \<in> set (py_strip s)"
  then have "x \<in> set (dropWhile isspace (rev (dropWhile isspace s)))"
    by (simp add: py_strip_def)
  then have "x \<in> set (rev (dropWhile isspace s))" by (rule set_dropWhileD)
  then have "x \<in> set (dropWhile isspace s)" by simp
  then show "x \<in> set s" by (rule set_dropWhileD)
qed




lemma set_strip_remove: "set (py_strip (remove_char m s)) \<subseteq> set s - {m}"
proof -
  have "set (remove_char m s) \<subseteq> set s - {m}" by (auto simp: remove_char_def)
  with set_py_strip [of "remove_char m s"] show ?thesis by blast
qed

lemma markers_gone:
  "set (foldl (\<lambda>t m. py_strip (remove_char m t)) t markers) \<inter> set markers = {}"
proof -
  define a where "a = py_strip (remove_char 35 t)"
  define b where "b = py_strip (remove_char 42 a)"
  define c where "c = py_strip (remove_char 8594 b)"
  define d where "d = py_strip (remove_char 9658 c)"
  define e where "e = py_strip (remove_char 9660 d)"
  have "set a \<subseteq> set t - {35}" unfolding a_def by (rule set_strip_remove)
  moreover have "set b \<subseteq> set a - {42}" unfolding b_def by (rule set_strip_remove)
  moreover have "set c \<subseteq> set b - {8594}" unfolding c_def by (rule set_strip_remove)
  moreover have "set d \<subseteq> set c - {9658}" unfolding d_def by (rule set_strip_remove)
  moreover have "set e \<subseteq> set d - {9660}" unfolding e_def by (rule set_strip_remove)
  ultimately have "set e \<inter> {35, 42, 8594, 9658, 9660} = {}" by blast
  moreover have "foldl (\<lambda>t m. py_strip (remove_char m t)) t markers = e"
    by (simp add: markers_def a_def b_def c_def d_def e_def)
  ultimately show ?thesis by (simp add: markers_def)
qed

lemma clean_le: "length (clean_heading t) \<le> 100"
proof -
  define t3 where
    "t3 = foldl (\<lambda>t m. py_strip (remove_char m t)) (strip_outline (py_strip t)) markers"
  define t4 where "t4 = (if length t3 > 100 then py_strip (take 100 t3) else t3)"
  have "length (py_strip (take 100 t3)) \<le> length (take 100 t3)"
    by (rule length_py_strip_le)
  then have "length t4 \<le> 100" by (simp add: t4_def)
  moreover have "length (py_strip t4) \<le> length t4" by (rule length_py_strip_le)
  moreover have "clean_heading t = py_strip t4"
    by (simp add: clean_heading_def Let_def t3_def t4_def)
  ultimately show ?thesis by simp
qed

lemma clean_markers: "set (clean_heading t) \<inter> set markers = {}"
proof -
  define t3 where
    "t3 = foldl (\<lambda>t m. py_strip (remove_char m t)) (strip_outline (py_strip t)) markers"
  define t4 where "t4 = (if length t3 > 100 then py_strip (take 100 t3) else t3)"
  have m3: "set t3 \<inter> set markers = {}" unfolding t3_def by (rule markers_gone)
  have "set (py_strip (take 100 t3)) \<subseteq> set t3"
    using set_py_strip [of "take 100 t3"] set_take_subset [of 100 t3] by blast
  then have "set t4 \<subseteq> set t3" by (simp add: t4_def)
  then have "set (py_strip t4) \<subseteq> set t3" using set_py_strip [of t4] by blast
  moreover have "clean_heading t = py_strip t4"
    by (simp add: clean_heading_def Let_def t3_def t4_def)
  ultimately show ?thesis using m3 by auto
qed





lemma py_strip_Nil: "py_strip [] = []"
  by (simp add: py_strip_def)




















































section \<open>Properties of the output format\<close>

lemma bind_res_Inr:
  "bind_res r f = Inr y \<longleftrightarrow> (\<exists>x. r = Inr x \<and> f x = Inr y)"
  by (cases r) (simp_all add: bind_res_def)

lemma map_res_Inr:
  "map_res f xs = Inr ys \<longleftrightarrow> list_all2 (\<lambda>x y. f x = Inr y) xs ys"
proof (induction xs arbitrary: ys)
  case Nil
  then show ?case by auto
next
  case (Cons x xs)
  show ?case
  proof
    assume "map_res f (x # xs) = Inr ys"
    then obtain y ys' where "f x = Inr y" "map_res f xs = Inr ys'" "ys = y # ys'"
      by (auto simp: bind_res_Inr)
    then show "list_all2 (\<lambda>x y. f x = Inr y) (x # xs) ys" using Cons.IH by simp
  next
    assume "list_all2 (\<lambda>x y. f x = Inr y) (x # xs) ys"
    then obtain y ys' where "ys = y # ys'" "f x = Inr y" "list_all2 (\<lambda>x y. f x = Inr y) xs ys'"
      by (auto simp: list_all2_Cons1)
    moreover from this have "map_res f xs = Inr ys'" using Cons.IH by simp
    ultimately show "map_res f (x # xs) = Inr ys" by (simp add: bind_res_def)
  qed
qed

lemma dict_set_not_Nil: "dict_set d k v \<noteq> []"
  by (induction d k v rule: dict_set.induct) auto

lemma dict_set_new: "k \<notin> fst ` set d \<Longrightarrow> dict_set d k v = d @ [(k, v)]"
  by (induction d k v rule: dict_set.induct) auto

lemma kept_fold_not_Nil:
  "foldl (\<lambda>d sub. if snd sub \<noteq> [] then dict_set d (fst sub) (snd sub) else d) d subs \<noteq> []
     \<longleftrightarrow> d \<noteq> [] \<or> (\<exists>sub\<in>set subs. snd sub \<noteq> [])"
  by (induction subs arbitrary: d) (auto simp: dict_set_not_Nil)

lemma kept_submodules_not_Nil:
  "kept_submodules md \<noteq> [] \<longleftrightarrow> (\<exists>sub\<in>set (m_submodules md). snd sub \<noteq> [])"
  by (simp add: kept_submodules_def kept_fold_not_Nil)

lemma kept_fold_distinct:
  "distinct (map fst (d @ subs)) \<Longrightarrow>
     foldl (\<lambda>d sub. if snd sub \<noteq> [] then dict_set d (fst sub) (snd sub) else d) d subs
       = d @ filter (\<lambda>sub. snd sub \<noteq> []) subs"
proof (induction subs arbitrary: d)
  case Nil
  then show ?case by simp
next
  case (Cons sub subs)
  show ?case
  proof (cases "snd sub \<noteq> []")
    case True
    have "fst sub \<notin> fst ` set d" using Cons.prems by auto
    then have ds: "dict_set d (fst sub) (snd sub) = d @ [sub]" by (simp add: dict_set_new)
    have "distinct (map fst ((d @ [sub]) @ subs))" using Cons.prems by simp
    then show ?thesis using Cons.IH [of "d @ [sub]"] True ds by simp
  next
    case False
    have "distinct (map fst (d @ subs))" using Cons.prems by auto
    then show ?thesis using Cons.IH [of d] False by simp
  qed
qed

lemma kept_submodules_distinct:
  "distinct (dict_keys (m_submodules md)) \<Longrightarrow>
     kept_submodules md = filter (\<lambda>sub. snd sub \<noteq> []) (m_submodules md)"
  using kept_fold_distinct [of "[]" "m_submodules md"]
  by (simp add: kept_submodules_def dict_keys_def)

lemma format_module_Inr:
  "format_module generate item = Inr outs \<longleftrightarrow>
     (\<exists>d. module_description generate (snd item) = Inr d
        \<and> outs = (if d \<noteq> [] \<or> kept_submodules (snd item) \<noteq> []
                   then [\<lparr>om_module = fst item,
                           om_description = (if d \<noteq> [] then d else str ''Module for '' @ fst item),
                           om_submodules = kept_submodules (snd item)\<rparr>]
                   else []))"
  by (auto simp: format_module_def Let_def bind_res_Inr)

lemma format_output_all2:
  assumes "format_output generate ms = Inr out"
  shows "list_all2
           (\<lambda>item om. \<exists>d. module_description generate (snd item) = Inr d
              \<and> om = \<lparr>om_module = fst item,
                       om_description = (if d \<noteq> [] then d else str ''Module for '' @ fst item),
                       om_submodules = kept_submodules (snd item)\<rparr>)
           (filter (\<lambda>item. \<exists>d. module_description generate (snd item) = Inr d
                       \<and> (d \<noteq> [] \<or> kept_submodules (snd item) \<noteq> [])) ms)
           out"
proof -
  obtain outs where o: "list_all2 (\<lambda>item os. format_module generate item = Inr os) ms outs"
    and c: "out = concat outs"
    using assms by (auto simp: format_output_def bind_res_Inr map_res_Inr)
  from o have "list_all2
           (\<lambda>item om. \<exists>d. module_description generate (snd item) = Inr d
              \<and> om = \<lparr>om_module = fst item,
                       om_description = (if d \<noteq> [] then d else str ''Module for '' @ fst item),
                       om_submodules = kept_submodules (snd item)\<rparr>)
           (filter (\<lambda>item. \<exists>d. module_description generate (snd item) = Inr d
                       \<and> (d \<noteq> [] \<or> kept_submodules (snd item) \<noteq> [])) ms)
           (concat outs)"
  proof (induction ms outs rule: list_all2_induct)
    case Nil
    then show ?case by simp
  next
    case (Cons item ms os outs)
    then obtain d where d: "module_description generate (snd item) = Inr d"
      and os: "os = (if d \<noteq> [] \<or> kept_submodules (snd item) \<noteq> []
                   then [\<lparr>om_module = fst item,
                           om_description = (if d \<noteq> [] then d else str ''Module for '' @ fst item),
                           om_submodules = kept_submodules (snd item)\<rparr>]
                   else [])"
      by (auto simp: format_module_Inr)
    show ?case
    proof (cases "d \<noteq> [] \<or> kept_submodules (snd item) \<noteq> []")
      case True
      then show ?thesis using Cons.IH d os by auto
    next
      case False
      then show ?thesis using Cons.IH d os by auto
    qed
  qed
  then show ?thesis using c by simp
qed

lemma list_all2_right:
  "list_all2 P xs ys \<Longrightarrow> y \<in> set ys \<Longrightarrow> \<exists>x\<in>set xs. P x y"
  by (induction xs ys rule: list_all2_induct) auto

lemma list_all2_map_eq:
  "list_all2 (\<lambda>x y. f x = g y) xs ys \<Longrightarrow> map f xs = map g ys"
  by (induction xs ys rule: list_all2_induct) auto

lemma format_output_names:
  assumes "format_output generate ms = Inr out"
  shows "map om_module out
           = map fst (filter (\<lambda>item. \<exists>d. module_description generate (snd item) = Inr d
                       \<and> (d \<noteq> [] \<or> kept_submodules (snd item) \<noteq> [])) ms)"
proof -
  have "list_all2 (\<lambda>item om. fst item = om_module om)
          (filter (\<lambda>item. \<exists>d. module_description generate (snd item) = Inr d
                       \<and> (d \<noteq> [] \<or> kept_submodules (snd item) \<noteq> [])) ms) out"
    using format_output_all2 [OF assms] by (rule list_all2_mono) auto
  then show ?thesis by (rule list_all2_map_eq [symmetric])
qed

lemma format_output_descriptions:
  assumes "format_output generate ms = Inr out"
  shows "\<forall>om\<in>set out. om_description om \<noteq> []"
proof
  fix om assume "om \<in> set out"
  then obtain item d where
    "om = \<lparr>om_module = fst item,
           om_description = (if d \<noteq> [] then d else str ''Module for '' @ fst item),
           om_submodules = kept_submodules (snd item)\<rparr>"
    using list_all2_right [OF format_output_all2 [OF assms] \<open>om \<in> set out\<close>] by blast
  then show "om_description om \<noteq> []" by (simp add: str_def)
qed

lemma format_output_placeholder:
  assumes "module_description generate md = Inr []" "kept_submodules md \<noteq> []"
  shows "format_output generate [(k, md)]
           = Inr [\<lparr>om_module = k, om_description = str ''Module for '' @ k,
                   om_submodules = kept_submodules md\<rparr>]"
  using assms by (simp add: format_output_def format_module_def bind_res_def)

lemma format_output_dropped:
  assumes "module_description generate md = Inr []" "kept_submodules md = []"
  shows "format_output generate [(k, md)] = Inr []"
  using assms by (simp add: format_output_def format_module_def bind_res_def)

lemma describe_module_Inr:
  "describe_module generate lower pp item = Inr r \<longleftrightarrow>
     (\<exists>d subs. generate (content_or_page lower pp (fst item) (m_content (snd item))) = Inr d
        \<and> list_all2 (\<lambda>sub sub'. \<exists>sd. generate (content_or_page lower pp (fst sub) (snd sub)) = Inr sd
                          \<and> sub' = (fst sub, sd))
             (m_submodules (snd item)) subs
        \<and> r = (fst item, (snd item)\<lparr>m_description := Some d, m_submodules := subs\<rparr>))"
proof -
  have "(\<lambda>sub sub'. bind_res (generate (content_or_page lower pp (fst sub) (snd sub)))
                          (\<lambda>sub_desc. Inr (fst sub, sub_desc)) = Inr sub')
          = (\<lambda>sub sub'. \<exists>sd. generate (content_or_page lower pp (fst sub) (snd sub)) = Inr sd
                          \<and> sub' = (fst sub, sd))"
    by (auto simp: bind_res_Inr fun_eq_iff)
  then show ?thesis
    by (auto simp: describe_module_def Let_def bind_res_Inr map_res_Inr)
qed

lemma described_description:
  assumes "describe_module generate lower pp item = Inr (k, md)" and g: "generate [] = Inr []"
  shows "\<exists>d. m_description md = Some d \<and> module_description generate md = Inr d
           \<and> generate (content_or_page lower pp (fst item) (m_content (snd item))) = Inr d
           \<and> k = fst item"
proof -
  obtain d subs where d: "generate (content_or_page lower pp (fst item) (m_content (snd item))) = Inr d"
    and r: "(k, md) = (fst item, (snd item)\<lparr>m_description := Some d, m_submodules := subs\<rparr>)"
    using assms(1) by (auto simp: describe_module_Inr)
  have md: "m_description md = Some d" "m_content md = m_content (snd item)" "k = fst item"
    using r by auto
  have "module_description generate md = Inr d"
  proof (cases "d = []")
    case False
    then show ?thesis using md by (simp add: module_description_def)
  next
    case True
    show ?thesis
    proof (cases "m_content (snd item) = []")
      case True
      then show ?thesis using md \<open>d = []\<close> g by (simp add: module_description_def)
    next
      case False
      then show ?thesis using md \<open>d = []\<close> d
        by (simp add: module_description_def content_or_page_def)
    qed
  qed
  then show ?thesis using md d by simp
qed

lemma pipeline_output_names:
  assumes ds: "describe_modules generate lower pp ms = Inr ds" and g: "generate [] = Inr []"
    and out: "format_output generate ds = Inr out"
  shows "map om_module out
           = map fst (filter (\<lambda>item. (\<exists>d. m_description (snd item) = Some d \<and> d \<noteq> [])
                                \<or> (\<exists>sub\<in>set (m_submodules (snd item)). snd sub \<noteq> [])) ds)"
proof -
  have each: "\<exists>d. m_description (snd item) = Some d \<and> module_description generate (snd item) = Inr d"
    if "item \<in> set ds" for item
  proof -
    from ds have "list_all2 (\<lambda>x y. describe_module generate lower pp x = Inr y) ms ds"
      by (simp add: describe_modules_def map_res_Inr)
    from list_all2_right [OF this that]
    obtain x where "describe_module generate lower pp x = Inr item" by blast
    then have "describe_module generate lower pp x = Inr (fst item, snd item)" by simp
    from described_description [OF this g] show ?thesis by blast
  qed
  have "filter (\<lambda>item. \<exists>d. module_description generate (snd item) = Inr d
                       \<and> (d \<noteq> [] \<or> kept_submodules (snd item) \<noteq> [])) ds
        = filter (\<lambda>item. (\<exists>d. m_description (snd item) = Some d \<and> d \<noteq> [])
                                \<or> (\<exists>sub\<in>set (m_submodules (snd item)). snd sub \<noteq> [])) ds"
  proof (rule filter_cong [OF refl])
    fix item assume "item \<in> set ds"
    from each [OF this] obtain d where "m_description (snd item) = Some d"
      "module_description generate (snd item) = Inr d" by blast
    then show "(\<exists>d. module_description generate (snd item) = Inr d
                       \<and> (d \<noteq> [] \<or> kept_submodules (snd item) \<noteq> []))
        = ((\<exists>d. m_description (snd item) = Some d \<and> d \<noteq> [])
                                \<or> (\<exists>sub\<in>set (m_submodules (snd item)). snd sub \<noteq> []))"
      by (simp add: kept_submodules_not_Nil)
  qed
  then show ?thesis using format_output_names [OF out] by simp
qed

lemma generate_description_short:
  "length (py_strip content) < min_length \<Longrightarrow>
     generate_description min_length max_sentences es sc fin content = []"
  by (simp add: generate_description_def)

lemma generate_description_empty:
  "generate_description min_length max_sentences es sc fin [] = []"
  by (simp add: generate_description_def)

lemma scenario_fragment:
  fixes min_length max_sentences :: nat and es sc fin and u name :: pystr
  assumes c: "content \<noteq> []" "length (py_strip content) < min_length"
  defines "generate \<equiv> \<lambda>c. Inr (generate_description min_length max_sentences es sc fin c)"
    and "md \<equiv> \<lparr>m_submodules = [], m_content = content, m_url = u, m_description = None\<rparr>"
  shows "describe_modules generate lower pp [(name, md)]
           = Inr [(name, md\<lparr>m_description := Some []\<rparr>)]"
    and "format_output generate [(name, md\<lparr>m_description := Some []\<rparr>)] = Inr []"
proof -
  have g: "generate content = Inr []"
    using c by (simp add: generate_def generate_description_short)
  show "describe_modules generate lower pp [(name, md)]
           = Inr [(name, md\<lparr>m_description := Some []\<rparr>)]"
    using c(1) g
    by (simp add: describe_modules_def describe_module_def bind_res_def content_or_page_def
        md_def)
  have "module_description generate (md\<lparr>m_description := Some []\<rparr>) = Inr []"
    using g by (simp add: module_description_def md_def)
  moreover have "kept_submodules (md\<lparr>m_description := Some []\<rparr>) = []"
    by (simp add: kept_submodules_def md_def)
  ultimately show "format_output generate [(name, md\<lparr>m_description := Some []\<rparr>)] = Inr []"
    by (rule format_output_dropped)
qed

lemma describe_modules_all2:
  assumes "describe_modules generate lower pp ms = Inr ds"
  shows "list_all2
           (\<lambda>item r. \<exists>d subs.
              generate (content_or_page lower pp (fst item) (m_content (snd item))) = Inr d
              \<and> list_all2 (\<lambda>sub sub'. \<exists>sd.
                     generate (content_or_page lower pp (fst sub) (snd sub)) = Inr sd
                     \<and> sub' = (fst sub, sd))
                  (m_submodules (snd item)) subs
              \<and> r = (fst item, (snd item)\<lparr>m_description := Some d, m_submodules := subs\<rparr>))
           ms ds"
  using assms by (simp add: describe_modules_def map_res_Inr describe_module_Inr)

text \<open>
  Claim C2.  \<open>_format_output\<close> keeps the modules in their order and keeps a module if and
  only if its description is not empty or one of its submodules has a description that is
  not empty; the description is the one the module has, or a new one from its content
  when it has none.  In the pipeline step 4 sets every description first, the module's to
  the one generated from its content or, without content, from the page that names it,
  and each submodule's likewise; the summarizer gives the empty description for empty
  content, so there a module is in the output if and only if its generated description is
  not empty or one of its submodules has a generated description that is not empty.  A
  module with no submodule and with content whose trimmed length is under the
  summarizer's minimum gets the empty description and is not in the output.
\<close>

theorem format_output_membership:
  "(format_output generate ms = Inr out \<longrightarrow>
      map om_module out
        = map fst (filter (\<lambda>item. \<exists>d. module_description generate (snd item) = Inr d
                     \<and> (d \<noteq> [] \<or> kept_submodules (snd item) \<noteq> [])) ms))
   \<and> (kept_submodules md \<noteq> [] \<longleftrightarrow> (\<exists>sub\<in>set (m_submodules md). snd sub \<noteq> []))
   \<and> (describe_modules generate lower pp ms = Inr ds \<longrightarrow>
        list_all2
           (\<lambda>item r. \<exists>d subs.
              generate (content_or_page lower pp (fst item) (m_content (snd item))) = Inr d
              \<and> list_all2 (\<lambda>sub sub'. \<exists>sd.
                     generate (content_or_page lower pp (fst sub) (snd sub)) = Inr sd
                     \<and> sub' = (fst sub, sd))
                  (m_submodules (snd item)) subs
              \<and> r = (fst item, (snd item)\<lparr>m_description := Some d, m_submodules := subs\<rparr>))
           ms ds)
   \<and> (describe_modules generate lower pp ms = Inr ds \<and> generate [] = Inr []
        \<and> format_output generate ds = Inr out' \<longrightarrow>
        map om_module out'
          = map fst (filter (\<lambda>item. (\<exists>d. m_description (snd item) = Some d \<and> d \<noteq> [])
                       \<or> (\<exists>sub\<in>set (m_submodules (snd item)). snd sub \<noteq> [])) ds))
   \<and> generate_description min_length max_sentences es sc fin [] = []
   \<and> (content \<noteq> [] \<and> length (py_strip content) < min_length \<longrightarrow>
        generate_description min_length max_sentences es sc fin content = []
        \<and> describe_modules
            (\<lambda>c. Inr (generate_description min_length max_sentences es sc fin c)) lower pp
            [(name, \<lparr>m_submodules = [], m_content = content, m_url = u,
                      m_description = None\<rparr>)]
          = Inr [(name, \<lparr>m_submodules = [], m_content = content, m_url = u,
                           m_description = Some []\<rparr>)]
        \<and> format_output
            (\<lambda>c. Inr (generate_description min_length max_sentences es sc fin c))
            [(name, \<lparr>m_submodules = [], m_content = content, m_url = u,
                      m_description = Some []\<rparr>)]
          = Inr [])"
proof -
  have a: "format_output generate ms = Inr out \<longrightarrow>
      map om_module out
        = map fst (filter (\<lambda>item. \<exists>d. module_description generate (snd item) = Inr d
                     \<and> (d \<noteq> [] \<or> kept_submodules (snd item) \<noteq> [])) ms)"
    using format_output_names [of generate ms out] by blast
  have c: "describe_modules generate lower pp ms = Inr ds \<longrightarrow>
        list_all2
           (\<lambda>item r. \<exists>d subs.
              generate (content_or_page lower pp (fst item) (m_content (snd item))) = Inr d
              \<and> list_all2 (\<lambda>sub sub'. \<exists>sd.
                     generate (content_or_page lower pp (fst sub) (snd sub)) = Inr sd
                     \<and> sub' = (fst sub, sd))
                  (m_submodules (snd item)) subs
              \<and> r = (fst item, (snd item)\<lparr>m_description := Some d, m_submodules := subs\<rparr>))
           ms ds"
    using describe_modules_all2 [of generate lower pp ms ds] by blast
  have d: "describe_modules generate lower pp ms = Inr ds \<and> generate [] = Inr []
        \<and> format_output generate ds = Inr out' \<longrightarrow>
        map om_module out'
          = map fst (filter (\<lambda>item. (\<exists>d. m_description (snd item) = Some d \<and> d \<noteq> [])
                       \<or> (\<exists>sub\<in>set (m_submodules (snd item)). snd sub \<noteq> [])) ds)"
    using pipeline_output_names [of generate lower pp ms ds out'] by blast
  have e: "content \<noteq> [] \<and> length (py_strip content) < min_length \<longrightarrow>
        generate_description min_length max_sentences es sc fin content = []
        \<and> describe_modules
            (\<lambda>c. Inr (generate_description min_length max_sentences es sc fin c)) lower pp
            [(name, \<lparr>m_submodules = [], m_content = content, m_url = u,
                      m_description = None\<rparr>)]
          = Inr [(name, \<lparr>m_submodules = [], m_content = content, m_url = u,
                           m_description = Some []\<rparr>)]
        \<and> format_output
            (\<lambda>c. Inr (generate_description min_length max_sentences es sc fin c))
            [(name, \<lparr>m_submodules = [], m_content = content, m_url = u,
                      m_description = Some []\<rparr>)]
          = Inr []"
    using scenario_fragment(1) [where content = content and min_length = min_length
        and max_sentences = max_sentences and es = es and sc = sc and fin = fin
        and lower = lower and pp = pp and name = name and u = u]
      scenario_fragment(2) [where content = content and min_length = min_length
        and max_sentences = max_sentences and es = es and sc = sc and fin = fin
        and name = name and u = u]
      generate_description_short [where content = content and min_length = min_length
        and max_sentences = max_sentences and es = es and sc = sc and fin = fin]
    by simp
  show ?thesis
    by (intro conjI)
      (fact a kept_submodules_not_Nil c d generate_description_empty e)+
qed


theorem format_output_membership_witness:
  "describe_modules (\<lambda>c. Inr (if length c < 20 then [] else c)) id []
       [(str ''Billing'', \<lparr>m_submodules = [], m_content = str ''Billing handles invoices.'',
           m_url = str ''/a'', m_description = None\<rparr>),
        (str ''Misc'', \<lparr>m_submodules = [], m_content = str ''Too short'',
           m_url = str ''/a'', m_description = None\<rparr>)]
     = Inr [(str ''Billing'', \<lparr>m_submodules = [], m_content = str ''Billing handles invoices.'',
               m_url = str ''/a'', m_description = Some (str ''Billing handles invoices.'')\<rparr>),
            (str ''Misc'', \<lparr>m_submodules = [], m_content = str ''Too short'',
               m_url = str ''/a'', m_description = Some []\<rparr>)]
   \<and> format_output (\<lambda>c. Inr (if length c < 20 then [] else c))
        [(str ''Billing'', \<lparr>m_submodules = [], m_content = str ''Billing handles invoices.'',
               m_url = str ''/a'', m_description = Some (str ''Billing handles invoices.'')\<rparr>),
         (str ''Misc'', \<lparr>m_submodules = [], m_content = str ''Too short'',
               m_url = str ''/a'', m_description = Some []\<rparr>)]
     = Inr [\<lparr>om_module = str ''Billing'', om_description = str ''Billing handles invoices.'',
              om_submodules = []\<rparr>]
   \<and> map fst (filter (\<lambda>item. \<exists>d. module_description
                         (\<lambda>c. Inr (if length c < 20 then [] else c)) (snd item) = Inr d
                     \<and> (d \<noteq> [] \<or> kept_submodules (snd item) \<noteq> []))
        [(str ''Billing'', \<lparr>m_submodules = [], m_content = str ''Billing handles invoices.'',
               m_url = str ''/a'', m_description = Some (str ''Billing handles invoices.'')\<rparr>),
         (str ''Misc'', \<lparr>m_submodules = [], m_content = str ''Too short'',
               m_url = str ''/a'', m_description = Some []\<rparr>)])
     = [str ''Billing'']
   \<and> map fst (filter (\<lambda>item. (\<exists>d. m_description (snd item) = Some d \<and> d \<noteq> [])
                       \<or> (\<exists>sub\<in>set (m_submodules (snd item)). snd sub \<noteq> []))
        [(str ''Billing'', \<lparr>m_submodules = [], m_content = str ''Billing handles invoices.'',
               m_url = str ''/a'', m_description = Some (str ''Billing handles invoices.'')\<rparr>),
         (str ''Misc'', \<lparr>m_submodules = [], m_content = str ''Too short'',
               m_url = str ''/a'', m_description = Some []\<rparr>)])
     = [str ''Billing'']
   \<and> format_output (\<lambda>c. Inr (generate_description 20 3 (\<lambda>c. []) (\<lambda>s. 0) id c))
        [(str ''Misc'', \<lparr>m_submodules = [], m_content = str ''tenletters'',
            m_url = str ''/a'', m_description = Some []\<rparr>)]
     = Inr []"
proof -
  define g :: "pystr \<Rightarrow> exc + pystr" where "g = (\<lambda>c. Inr (if length c < 20 then [] else c))"
  define ms :: modules where "ms =
       [(str ''Billing'', \<lparr>m_submodules = [], m_content = str ''Billing handles invoices.'',
           m_url = str ''/a'', m_description = None\<rparr>),
        (str ''Misc'', \<lparr>m_submodules = [], m_content = str ''Too short'',
           m_url = str ''/a'', m_description = None\<rparr>)]"
  define ds :: modules where "ds =
       [(str ''Billing'', \<lparr>m_submodules = [], m_content = str ''Billing handles invoices.'',
               m_url = str ''/a'', m_description = Some (str ''Billing handles invoices.'')\<rparr>),
        (str ''Misc'', \<lparr>m_submodules = [], m_content = str ''Too short'',
               m_url = str ''/a'', m_description = Some []\<rparr>)]"
  define out where "out =
       [\<lparr>om_module = str ''Billing'', om_description = str ''Billing handles invoices.'',
              om_submodules = []\<rparr>]"
  have len: "\<not> length (str ''Billing handles invoices.'') < 20" "length (str ''Too short'') < 20"
    "str ''Billing handles invoices.'' \<noteq> []" "str ''Too short'' \<noteq> []"
    "str ''tenletters'' \<noteq> []" "length (str ''tenletters'') < 20"
    by (simp_all add: str_def)
  have h1: "describe_modules g id [] ms = Inr ds"
    by (simp add: g_def ms_def ds_def describe_modules_def describe_module_def bind_res_def
        content_or_page_def len)
  have h2: "format_output g ds = Inr out"
    by (simp add: g_def ds_def out_def format_output_def format_module_def bind_res_def
        module_description_def kept_submodules_def len)
  have h3: "g [] = Inr []" by (simp add: g_def)
  have h4: "length (py_strip (str ''tenletters'')) < 20"
    using length_py_strip_le [of "str ''tenletters''"] len(6) by simp
  have n: "map om_module out = [str ''Billing'']" by (simp add: out_def)
  note a = format_output_membership [where generate = g and ms = ds and out = out,
      THEN conjunct1]
  note b = format_output_membership [where generate = g and ms = ms and ds = ds
      and out' = out and lower = id and pp = "[]",
      THEN conjunct2, THEN conjunct2, THEN conjunct2, THEN conjunct1]
  note c = format_output_membership [where min_length = 20 and max_sentences = 3
      and es = "\<lambda>c. []" and sc = "\<lambda>s. 0" and fin = id and content = "str ''tenletters''"
      and name = "str ''Misc''" and u = "str ''/a''",
      THEN conjunct2, THEN conjunct2, THEN conjunct2, THEN conjunct2, THEN conjunct2]
  have c1: "map fst (filter (\<lambda>item. \<exists>d. module_description g (snd item) = Inr d
                     \<and> (d \<noteq> [] \<or> kept_submodules (snd item) \<noteq> [])) ds) = [str ''Billing'']"
    using a h2 n by simp
  have c2: "map fst (filter (\<lambda>item. (\<exists>d. m_description (snd item) = Some d \<and> d \<noteq> [])
                       \<or> (\<exists>sub\<in>set (m_submodules (snd item)). snd sub \<noteq> [])) ds)
              = [str ''Billing'']"
    using b h1 h2 h3 n by simp
  have c3: "format_output (\<lambda>c. Inr (generate_description 20 3 (\<lambda>c. []) (\<lambda>s. 0) id c))
        [(str ''Misc'', \<lparr>m_submodules = [], m_content = str ''tenletters'',
            m_url = str ''/a'', m_description = Some []\<rparr>)] = Inr []"
    using c len(5) h4 by blast
  show ?thesis
    using h1 h2 c1 c2 c3 unfolding g_def ms_def ds_def out_def by (intro conjI)
qed

text \<open>
  Claim C10.  Every record of the output of \<open>_format_output\<close> has a description that is
  not empty.  The records are, in the order of the modules, those of the modules that are
  kept; the description of a record is the description of the module when that is not
  empty, and \<open>"Module for "\<close> followed by the name of the module when it is empty, which
  is the case of a module kept for a submodule with a description; the submodules of the
  record are the submodules whose description is not empty.
\<close>

theorem format_output_description:
  "(format_output generate ms = Inr out \<longrightarrow>
      list_all2
        (\<lambda>item om. \<exists>d. module_description generate (snd item) = Inr d
           \<and> om = \<lparr>om_module = fst item,
                    om_description = (if d \<noteq> [] then d else str ''Module for '' @ fst item),
                    om_submodules = kept_submodules (snd item)\<rparr>)
        (filter (\<lambda>item. \<exists>d. module_description generate (snd item) = Inr d
                    \<and> (d \<noteq> [] \<or> kept_submodules (snd item) \<noteq> [])) ms)
        out)
   \<and> (format_output generate ms = Inr out \<longrightarrow> (\<forall>om\<in>set out. om_description om \<noteq> []))
   \<and> (module_description generate md = Inr [] \<and> kept_submodules md \<noteq> [] \<longrightarrow>
        format_output generate [(k, md)]
          = Inr [\<lparr>om_module = k, om_description = str ''Module for '' @ k,
                  om_submodules = kept_submodules md\<rparr>])
   \<and> (distinct (dict_keys (m_submodules md)) \<longrightarrow>
        kept_submodules md = filter (\<lambda>sub. snd sub \<noteq> []) (m_submodules md))"
proof -
  have a: "format_output generate ms = Inr out \<longrightarrow>
      list_all2
        (\<lambda>item om. \<exists>d. module_description generate (snd item) = Inr d
           \<and> om = \<lparr>om_module = fst item,
                    om_description = (if d \<noteq> [] then d else str ''Module for '' @ fst item),
                    om_submodules = kept_submodules (snd item)\<rparr>)
        (filter (\<lambda>item. \<exists>d. module_description generate (snd item) = Inr d
                    \<and> (d \<noteq> [] \<or> kept_submodules (snd item) \<noteq> [])) ms)
        out"
    using format_output_all2 [of generate ms out] by blast
  have b: "format_output generate ms = Inr out \<longrightarrow> (\<forall>om\<in>set out. om_description om \<noteq> [])"
    using format_output_descriptions [of generate ms out] by blast
  have c: "module_description generate md = Inr [] \<and> kept_submodules md \<noteq> [] \<longrightarrow>
        format_output generate [(k, md)]
          = Inr [\<lparr>om_module = k, om_description = str ''Module for '' @ k,
                  om_submodules = kept_submodules md\<rparr>]"
    using format_output_placeholder [of generate md k] by blast
  have d: "distinct (dict_keys (m_submodules md)) \<longrightarrow>
        kept_submodules md = filter (\<lambda>sub. snd sub \<noteq> []) (m_submodules md)"
    using kept_submodules_distinct [of md] by blast
  show ?thesis by (intro conjI) (fact a b c d)+
qed

theorem format_output_description_witness:
  "format_output (\<lambda>c. Inr (if length c < 20 then [] else c))
       [(str ''Billing'',
         \<lparr>m_submodules = [(str ''Invoices'', str ''Creates invoices.''), (str ''Taxes'', [])],
          m_content = [], m_url = str ''/a'', m_description = Some []\<rparr>)]
     = Inr [\<lparr>om_module = str ''Billing'', om_description = str ''Module for '' @ str ''Billing'',
              om_submodules = [(str ''Invoices'', str ''Creates invoices.'')]\<rparr>]
   \<and> str ''Module for '' @ str ''Billing'' \<noteq> []
   \<and> kept_submodules
        \<lparr>m_submodules = [(str ''Invoices'', str ''Creates invoices.''), (str ''Taxes'', [])],
         m_content = [], m_url = str ''/a'', m_description = Some []\<rparr>
     = [(str ''Invoices'', str ''Creates invoices.'')]"
proof -
  define g :: "pystr \<Rightarrow> exc + pystr" where "g = (\<lambda>c. Inr (if length c < 20 then [] else c))"
  define md where "md =
        \<lparr>m_submodules = [(str ''Invoices'', str ''Creates invoices.''), (str ''Taxes'', [])],
         m_content = [], m_url = str ''/a'', m_description = Some []\<rparr>"
  define out where "out =
        [\<lparr>om_module = str ''Billing'', om_description = str ''Module for '' @ str ''Billing'',
              om_submodules = [(str ''Invoices'', str ''Creates invoices.'')]\<rparr>]"
  have ne: "str ''Creates invoices.'' \<noteq> []" "str ''Invoices'' \<noteq> str ''Taxes''"
    by (simp_all add: str_def)
  have h1: "module_description g md = Inr []"
    by (simp add: module_description_def g_def md_def)
  have h2: "distinct (dict_keys (m_submodules md))"
    by (simp add: md_def dict_keys_def ne)
  note th = format_output_description [where generate = g and md = md and k = "str ''Billing''"
      and ms = "[(str ''Billing'', md)]" and out = out]
  have k: "kept_submodules md = [(str ''Invoices'', str ''Creates invoices.'')]"
    using th [THEN conjunct2, THEN conjunct2, THEN conjunct2] h2
    by (simp add: md_def ne)
  then have h3: "kept_submodules md \<noteq> []" by simp
  have f: "format_output g [(str ''Billing'', md)] = Inr out"
    using th [THEN conjunct2, THEN conjunct2, THEN conjunct1] h1 h3
    by (simp add: k out_def)
  have "\<forall>om\<in>set out. om_description om \<noteq> []"
    using th [THEN conjunct2, THEN conjunct1] f by blast
  then have d: "str ''Module for '' @ str ''Billing'' \<noteq> []" by (simp add: out_def)
  show ?thesis using f d k unfolding g_def md_def out_def by (intro conjI)
qed

section \<open>Properties of the pipeline\<close>

lemma parse_pages_no_exception:
  "parse_pages parse pages acc logs \<noteq> Inl (Exception e, l)"
proof (induction pages arbitrary: acc logs)
  case Nil
  then show ?case by simp
next
  case (Cons p pages)
  show ?case
  proof (cases "parse (pg_html p) (pg_url p)")
    case (Inr parsed)
    then show ?thesis using Cons.IH by simp
  next
    case (Inl x)
    then show ?thesis using Cons.IH by (cases x) simp_all
  qed
qed

lemma parse_pages_step:
  "parse (pg_html p) (pg_url p) = Inl (Exception e) \<Longrightarrow>
     parse_pages parse (p # pages) acc logs
       = parse_pages parse pages acc
           (logs @ [warning (str ''Error parsing '' @ pg_url p @ str '': '' @ e)])"
  "parse (pg_html p) (pg_url p) = Inr parsed \<Longrightarrow>
     parse_pages parse (p # pages) acc logs = parse_pages parse pages (acc @ [parsed]) logs"
  "parse (pg_html p) (pg_url p) = Inl (BaseException e) \<Longrightarrow>
     parse_pages parse (p # pages) acc logs = Inl (BaseException e, logs)"
  by simp_all

lemma extract_no_exception:
  "pipeline_extract crawl parse infer generate lower fe urls \<noteq> Inl (Exception e)"
  by (simp add: pipeline_extract_def split: sum.splits prod.splits exc.splits)

lemma extract_handler:
  "extract_body crawl parse infer generate lower urls
       [info (str ''Starting extraction for '' @ str_of_nat (length urls) @ str '' URL(s)'')]
     = Inl (Exception e, logs) \<Longrightarrow>
   pipeline_extract crawl parse infer generate lower fe urls
     = Inr \<lparr>x_modules = [],
            x_logs = logs @ [error (str ''Pipeline error: '' @ e), error (fe e)],
            x_stats = None\<rparr>"
  "extract_body crawl parse infer generate lower urls
       [info (str ''Starting extraction for '' @ str_of_nat (length urls) @ str '' URL(s)'')]
     = Inl (BaseException e, logs) \<Longrightarrow>
   pipeline_extract crawl parse infer generate lower fe urls = Inl (BaseException e)"
  "extract_body crawl parse infer generate lower urls
       [info (str ''Starting extraction for '' @ str_of_nat (length urls) @ str '' URL(s)'')]
     = Inr x \<Longrightarrow>
   pipeline_extract crawl parse infer generate lower fe urls = Inr x"
  by (simp_all add: pipeline_extract_def)

lemma body_crawl_raises:
  "crawl urls = Inl ex \<Longrightarrow>
     extract_body crawl parse infer generate lower urls logs0
       = Inl (ex, logs0 @ [info (str ''Step 1: Crawling URLs...'')])"
  by (simp add: extract_body_def)

lemma body_infer_raises:
  assumes "crawl urls = Inr pages" "pages \<noteq> []"
    and "parse_pages parse pages []
           (logs0 @ [info (str ''Step 1: Crawling URLs...''),
                     info (str ''Crawled '' @ str_of_nat (length pages) @ str '' pages''),
                     info (str ''Step 2: Parsing HTML content...'')])
         = Inr (parsed_pages, logs4)"
    and "parsed_pages \<noteq> []" "infer parsed_pages = Inl ex"
  shows "extract_body crawl parse infer generate lower urls logs0
       = Inl (ex, logs4 @ [info (str ''Parsed '' @ str_of_nat (length parsed_pages) @ str '' pages''),
                           info (str ''Step 3: Inferring modules and submodules...'')])"
  using assms by (simp add: extract_body_def)

lemma body_describe_raises:
  assumes "crawl urls = Inr pages" "pages \<noteq> []"
    and "parse_pages parse pages []
           (logs0 @ [info (str ''Step 1: Crawling URLs...''),
                     info (str ''Crawled '' @ str_of_nat (length pages) @ str '' pages''),
                     info (str ''Step 2: Parsing HTML content...'')])
         = Inr (parsed_pages, logs4)"
    and "parsed_pages \<noteq> []" "infer parsed_pages = Inr modules_dict"
    and "describe_modules generate lower parsed_pages modules_dict = Inl ex"
  shows "extract_body crawl parse infer generate lower urls logs0
       = Inl (ex, logs4 @ [info (str ''Parsed '' @ str_of_nat (length parsed_pages) @ str '' pages''),
                           info (str ''Step 3: Inferring modules and submodules...''),
                           info (str ''Inferred '' @ str_of_nat (length modules_dict)
                                 @ str '' modules''),
                           info (str ''Step 4: Generating descriptions...'')])"
  using assms by (simp add: extract_body_def)

lemma body_format_raises:
  assumes "crawl urls = Inr pages" "pages \<noteq> []"
    and "parse_pages parse pages []
           (logs0 @ [info (str ''Step 1: Crawling URLs...''),
                     info (str ''Crawled '' @ str_of_nat (length pages) @ str '' pages''),
                     info (str ''Step 2: Parsing HTML content...'')])
         = Inr (parsed_pages, logs4)"
    and "parsed_pages \<noteq> []" "infer parsed_pages = Inr modules_dict"
    and "describe_modules generate lower parsed_pages modules_dict = Inr described"
    and "format_output generate described = Inl ex"
  shows "extract_body crawl parse infer generate lower urls logs0
       = Inl (ex, logs4 @ [info (str ''Parsed '' @ str_of_nat (length parsed_pages) @ str '' pages''),
                           info (str ''Step 3: Inferring modules and submodules...''),
                           info (str ''Inferred '' @ str_of_nat (length modules_dict)
                                 @ str '' modules''),
                           info (str ''Step 4: Generating descriptions...''),
                           info (str ''Step 5: Formatting output...'')])"
  using assms by (simp add: extract_body_def)

lemma body_parse_raises:
  assumes "crawl urls = Inr pages" "pages \<noteq> []"
    and "parse_pages parse pages []
           (logs0 @ [info (str ''Step 1: Crawling URLs...''),
                     info (str ''Crawled '' @ str_of_nat (length pages) @ str '' pages''),
                     info (str ''Step 2: Parsing HTML content...'')])
         = Inl el"
  shows "extract_body crawl parse infer generate lower urls logs0 = Inl el"
  using assms by (simp add: extract_body_def)

lemma body_complete:
  assumes "crawl urls = Inr pages" "pages \<noteq> []"
    and "parse_pages parse pages []
           (logs0 @ [info (str ''Step 1: Crawling URLs...''),
                     info (str ''Crawled '' @ str_of_nat (length pages) @ str '' pages''),
                     info (str ''Step 2: Parsing HTML content...'')])
         = Inr (parsed_pages, logs4)"
    and "parsed_pages \<noteq> []" "infer parsed_pages = Inr modules_dict"
    and "describe_modules generate lower parsed_pages modules_dict = Inr described"
    and "format_output generate described = Inr output_modules"
  shows "extract_body crawl parse infer generate lower urls logs0
       = Inr \<lparr>x_modules = output_modules,
              x_logs = logs4 @
                [info (str ''Parsed '' @ str_of_nat (length parsed_pages) @ str '' pages''),
                 info (str ''Step 3: Inferring modules and submodules...''),
                 info (str ''Inferred '' @ str_of_nat (length modules_dict) @ str '' modules''),
                 info (str ''Step 4: Generating descriptions...''),
                 info (str ''Step 5: Formatting output...''),
                 info (str ''Extraction complete. Generated ''
                       @ str_of_nat (length output_modules) @ str '' modules'')],
              x_stats = Some (length pages, length parsed_pages, length output_modules)\<rparr>"
  using assms by (simp add: extract_body_def)

lemma body_no_pages:
  assumes "crawl urls = Inr []"
  shows "extract_body crawl parse infer generate lower urls logs0
       = Inr \<lparr>x_modules = [],
              x_logs = logs0 @ [info (str ''Step 1: Crawling URLs...''),
                 info (str ''Crawled '' @ str_of_nat 0 @ str '' pages''),
                 warning (str ''No pages were crawled. Check URLs and network connectivity.'')],
              x_stats = None\<rparr>"
  using assms by (simp add: extract_body_def)

lemma body_none_parsed:
  assumes "crawl urls = Inr pages" "pages \<noteq> []"
    and "parse_pages parse pages []
           (logs0 @ [info (str ''Step 1: Crawling URLs...''),
                     info (str ''Crawled '' @ str_of_nat (length pages) @ str '' pages''),
                     info (str ''Step 2: Parsing HTML content...'')])
         = Inr ([], logs4)"
  shows "extract_body crawl parse infer generate lower urls logs0
       = Inr \<lparr>x_modules = [],
              x_logs = logs4 @ [info (str ''Parsed '' @ str_of_nat 0 @ str '' pages''),
                 warning (str ''No pages were successfully parsed.'')],
              x_stats = None\<rparr>"
  using assms by (simp add: extract_body_def)

lemma parse_pages_result:
  assumes "\<forall>p\<in>set pages. \<forall>e. parse (pg_html p) (pg_url p) \<noteq> Inl (BaseException e)"
  shows "parse_pages parse pages acc logs
           = Inr (acc @ List.map_filter
                          (\<lambda>p. case parse (pg_html p) (pg_url p) of
                                  Inr parsed \<Rightarrow> Some parsed | Inl ex \<Rightarrow> None) pages,
                  logs @ List.map_filter
                          (\<lambda>p. case parse (pg_html p) (pg_url p) of
                                  Inl (Exception e) \<Rightarrow>
                                    Some (warning (str ''Error parsing '' @ pg_url p
                                                   @ str '': '' @ e))
                                | Inl (BaseException e) \<Rightarrow> None
                                | Inr parsed \<Rightarrow> None) pages)"
  using assms
proof (induction pages arbitrary: acc logs)
  case Nil
  then show ?case by simp
next
  case (Cons p pages)
  then have ih: "\<And>acc logs. parse_pages parse pages acc logs
           = Inr (acc @ List.map_filter
                          (\<lambda>p. case parse (pg_html p) (pg_url p) of
                                  Inr parsed \<Rightarrow> Some parsed | Inl ex \<Rightarrow> None) pages,
                  logs @ List.map_filter
                          (\<lambda>p. case parse (pg_html p) (pg_url p) of
                                  Inl (Exception e) \<Rightarrow>
                                    Some (warning (str ''Error parsing '' @ pg_url p
                                                   @ str '': '' @ e))
                                | Inl (BaseException e) \<Rightarrow> None
                                | Inr parsed \<Rightarrow> None) pages)"
    by simp
  show ?case
  proof (cases "parse (pg_html p) (pg_url p)")
    case (Inr parsed)
    then show ?thesis by (simp add: ih)
  next
    case (Inl ex)
    show ?thesis
    proof (cases ex)
      case (Exception e)
      then show ?thesis using Inl by (simp add: ih)
    next
      case (BaseException e)
      then show ?thesis using Inl Cons.prems by simp
    qed
  qed
qed

lemma describe_first_raises:
  "generate (content_or_page lower pp k (m_content md)) = Inl ex \<Longrightarrow>
     describe_modules generate lower pp ((k, md) # rest) = Inl ex"
  by (simp add: describe_modules_def describe_module_def bind_res_def)

lemma format_first_raises:
  "module_description generate md = Inl ex \<Longrightarrow>
     format_output generate ((k, md) # rest) = Inl ex"
  by (simp add: format_output_def format_module_def bind_res_def)

text \<open>
  Claim C7, amended.  \<open>extract\<close> never lets an \<open>Exception\<close> go to its caller.  An
  \<open>Exception\<close> raised by the crawl, by the inference, by a call of the summarizer in
  step 4 or by the formatting of the output is caught by the handler of the \<open>try\<close>
  statement: the result has no module and no statistics, and its log is the log at the
  moment of the exception followed by two \<open>ERROR\<close> entries.  An \<open>Exception\<close> raised by the
  parsing of a page never reaches that handler: the loop over the pages catches it, logs a
  \<open>WARNING\<close> for the page, leaves the page out and goes on, so that the run can still end
  with modules.  What is raised outside \<open>Exception\<close> (a \<open>KeyboardInterrupt\<close>) is not
  caught.
\<close>

theorem extract_exceptions:
  "pipeline_extract crawl parse infer generate lower fe urls \<noteq> Inl (Exception e)
   \<and> (crawl urls = Inl (Exception e) \<longrightarrow>
      pipeline_extract crawl parse infer generate lower fe urls
        = Inr \<lparr>x_modules = [],
               x_logs = [info (str ''Starting extraction for '' @ str_of_nat (length urls)
                               @ str '' URL(s)''),
                         info (str ''Step 1: Crawling URLs...''),
                         error (str ''Pipeline error: '' @ e), error (fe e)],
               x_stats = None\<rparr>)
   \<and> (crawl urls = Inr pages \<and> pages \<noteq> []
        \<and> parse_pages parse pages []
             [info (str ''Starting extraction for '' @ str_of_nat (length urls) @ str '' URL(s)''),
              info (str ''Step 1: Crawling URLs...''),
              info (str ''Crawled '' @ str_of_nat (length pages) @ str '' pages''),
              info (str ''Step 2: Parsing HTML content...'')]
           = Inr (parsed_pages, logs4)
        \<and> parsed_pages \<noteq> []
        \<and> infer parsed_pages = Inl (Exception e) \<longrightarrow>
      pipeline_extract crawl parse infer generate lower fe urls
        = Inr \<lparr>x_modules = [],
               x_logs = logs4 @
                   [info (str ''Parsed '' @ str_of_nat (length parsed_pages) @ str '' pages''),
                    info (str ''Step 3: Inferring modules and submodules...''),
                    error (str ''Pipeline error: '' @ e), error (fe e)],
               x_stats = None\<rparr>)
   \<and> (crawl urls = Inr pages \<and> pages \<noteq> []
        \<and> parse_pages parse pages []
             [info (str ''Starting extraction for '' @ str_of_nat (length urls) @ str '' URL(s)''),
              info (str ''Step 1: Crawling URLs...''),
              info (str ''Crawled '' @ str_of_nat (length pages) @ str '' pages''),
              info (str ''Step 2: Parsing HTML content...'')]
           = Inr (parsed_pages, logs4)
        \<and> parsed_pages \<noteq> []
        \<and> infer parsed_pages = Inr modules_dict
        \<and> describe_modules generate lower parsed_pages modules_dict = Inl (Exception e) \<longrightarrow>
      pipeline_extract crawl parse infer generate lower fe urls
        = Inr \<lparr>x_modules = [],
               x_logs = logs4 @
                   [info (str ''Parsed '' @ str_of_nat (length parsed_pages) @ str '' pages''),
                    info (str ''Step 3: Inferring modules and submodules...''),
                    info (str ''Inferred '' @ str_of_nat (length modules_dict)
                          @ str '' modules''),
                    info (str ''Step 4: Generating descriptions...''),
                    error (str ''Pipeline error: '' @ e), error (fe e)],
               x_stats = None\<rparr>)
   \<and> (crawl urls = Inr pages \<and> pages \<noteq> []
        \<and> parse_pages parse pages []
             [info (str ''Starting extraction for '' @ str_of_nat (length urls) @ str '' URL(s)''),
              info (str ''Step 1: Crawling URLs...''),
              info (str ''Crawled '' @ str_of_nat (length pages) @ str '' pages''),
              info (str ''Step 2: Parsing HTML content...'')]
           = Inr (parsed_pages, logs4)
        \<and> parsed_pages \<noteq> []
        \<and> infer parsed_pages = Inr modules_dict
        \<and> describe_modules generate lower parsed_pages modules_dict = Inr described
        \<and> format_output generate described = Inl (Exception e) \<longrightarrow>
      pipeline_extract crawl parse infer generate lower fe urls
        = Inr \<lparr>x_modules = [],
               x_logs = logs4 @
                   [info (str ''Parsed '' @ str_of_nat (length parsed_pages) @ str '' pages''),
                    info (str ''Step 3: Inferring modules and submodules...''),
                    info (str ''Inferred '' @ str_of_nat (length modules_dict)
                          @ str '' modules''),
                    info (str ''Step 4: Generating descriptions...''),
                    info (str ''Step 5: Formatting output...''),
                    error (str ''Pipeline error: '' @ e), error (fe e)],
               x_stats = None\<rparr>)
   \<and> (generate (content_or_page lower parsed_pages k (m_content md)) = Inl ex \<longrightarrow>
      describe_modules generate lower parsed_pages ((k, md) # rest) = Inl ex)
   \<and> (module_description generate md = Inl ex \<longrightarrow>
      format_output generate ((k, md) # rest) = Inl ex)
   \<and> parse_pages parse pages acc logs \<noteq> Inl (Exception e, l)
   \<and> ((\<forall>p\<in>set pages. \<forall>b. parse (pg_html p) (pg_url p) \<noteq> Inl (BaseException b)) \<longrightarrow>
      parse_pages parse pages acc logs
        = Inr (acc @ List.map_filter
                       (\<lambda>p. case parse (pg_html p) (pg_url p) of
                               Inr parsed \<Rightarrow> Some parsed | Inl ex \<Rightarrow> None) pages,
               logs @ List.map_filter
                       (\<lambda>p. case parse (pg_html p) (pg_url p) of
                               Inl (Exception e) \<Rightarrow>
                                 Some (warning (str ''Error parsing '' @ pg_url p
                                                @ str '': '' @ e))
                             | Inl (BaseException e) \<Rightarrow> None
                             | Inr parsed \<Rightarrow> None) pages))
   \<and> (crawl urls = Inr pages \<and> pages \<noteq> []
        \<and> parse_pages parse pages []
             [info (str ''Starting extraction for '' @ str_of_nat (length urls) @ str '' URL(s)''),
              info (str ''Step 1: Crawling URLs...''),
              info (str ''Crawled '' @ str_of_nat (length pages) @ str '' pages''),
              info (str ''Step 2: Parsing HTML content...'')]
           = Inr (parsed_pages, logs4)
        \<and> parsed_pages \<noteq> []
        \<and> infer parsed_pages = Inr modules_dict
        \<and> describe_modules generate lower parsed_pages modules_dict = Inr described
        \<and> format_output generate described = Inr output_modules \<longrightarrow>
      pipeline_extract crawl parse infer generate lower fe urls
        = Inr \<lparr>x_modules = output_modules,
               x_logs = logs4 @
                   [info (str ''Parsed '' @ str_of_nat (length parsed_pages) @ str '' pages''),
                    info (str ''Step 3: Inferring modules and submodules...''),
                    info (str ''Inferred '' @ str_of_nat (length modules_dict)
                          @ str '' modules''),
                    info (str ''Step 4: Generating descriptions...''),
                    info (str ''Step 5: Formatting output...''),
                    info (str ''Extraction complete. Generated ''
                          @ str_of_nat (length output_modules) @ str '' modules'')],
               x_stats = Some (length pages, length parsed_pages, length output_modules)\<rparr>)
   \<and> (crawl urls = Inl (BaseException e) \<longrightarrow>
      pipeline_extract crawl parse infer generate lower fe urls = Inl (BaseException e))"
proof -
  have noexc: "pipeline_extract crawl parse infer generate lower fe urls \<noteq> Inl (Exception e)"
    by (rule extract_no_exception)
  have crawlx: "(crawl urls = Inl (Exception e) \<longrightarrow>
      pipeline_extract crawl parse infer generate lower fe urls
        = Inr \<lparr>x_modules = [],
               x_logs = [info (str ''Starting extraction for '' @ str_of_nat (length urls)
                               @ str '' URL(s)''),
                         info (str ''Step 1: Crawling URLs...''),
                         error (str ''Pipeline error: '' @ e), error (fe e)],
               x_stats = None\<rparr>)"
    using extract_handler(1) [OF body_crawl_raises, of crawl urls e parse infer generate lower fe]
      by simp
  have inferx: "(crawl urls = Inr pages \<and> pages \<noteq> []
        \<and> parse_pages parse pages []
             [info (str ''Starting extraction for '' @ str_of_nat (length urls) @ str '' URL(s)''),
              info (str ''Step 1: Crawling URLs...''),
              info (str ''Crawled '' @ str_of_nat (length pages) @ str '' pages''),
              info (str ''Step 2: Parsing HTML content...'')]
           = Inr (parsed_pages, logs4)
        \<and> parsed_pages \<noteq> []
        \<and> infer parsed_pages = Inl (Exception e) \<longrightarrow>
      pipeline_extract crawl parse infer generate lower fe urls
        = Inr \<lparr>x_modules = [],
               x_logs = logs4 @
                   [info (str ''Parsed '' @ str_of_nat (length parsed_pages) @ str '' pages''),
                    info (str ''Step 3: Inferring modules and submodules...''),
                    error (str ''Pipeline error: '' @ e), error (fe e)],
               x_stats = None\<rparr>)"
    using extract_handler(1) [OF body_infer_raises, of crawl urls pages parse parsed_pages logs4
          infer e generate lower fe]
      by simp
  have descx: "(crawl urls = Inr pages \<and> pages \<noteq> []
        \<and> parse_pages parse pages []
             [info (str ''Starting extraction for '' @ str_of_nat (length urls) @ str '' URL(s)''),
              info (str ''Step 1: Crawling URLs...''),
              info (str ''Crawled '' @ str_of_nat (length pages) @ str '' pages''),
              info (str ''Step 2: Parsing HTML content...'')]
           = Inr (parsed_pages, logs4)
        \<and> parsed_pages \<noteq> []
        \<and> infer parsed_pages = Inr modules_dict
        \<and> describe_modules generate lower parsed_pages modules_dict = Inl (Exception e) \<longrightarrow>
      pipeline_extract crawl parse infer generate lower fe urls
        = Inr \<lparr>x_modules = [],
               x_logs = logs4 @
                   [info (str ''Parsed '' @ str_of_nat (length parsed_pages) @ str '' pages''),
                    info (str ''Step 3: Inferring modules and submodules...''),
                    info (str ''Inferred '' @ str_of_nat (length modules_dict)
                          @ str '' modules''),
                    info (str ''Step 4: Generating descriptions...''),
                    error (str ''Pipeline error: '' @ e), error (fe e)],
               x_stats = None\<rparr>)"
    using extract_handler(1) [OF body_describe_raises, of crawl urls pages parse parsed_pages logs4
          infer modules_dict generate lower e fe]
      by simp
  have fmtx: "(crawl urls = Inr pages \<and> pages \<noteq> []
        \<and> parse_pages parse pages []
             [info (str ''Starting extraction for '' @ str_of_nat (length urls) @ str '' URL(s)''),
              info (str ''Step 1: Crawling URLs...''),
              info (str ''Crawled '' @ str_of_nat (length pages) @ str '' pages''),
              info (str ''Step 2: Parsing HTML content...'')]
           = Inr (parsed_pages, logs4)
        \<and> parsed_pages \<noteq> []
        \<and> infer parsed_pages = Inr modules_dict
        \<and> describe_modules generate lower parsed_pages modules_dict = Inr described
        \<and> format_output generate described = Inl (Exception e) \<longrightarrow>
      pipeline_extract crawl parse infer generate lower fe urls
        = Inr \<lparr>x_modules = [],
               x_logs = logs4 @
                   [info (str ''Parsed '' @ str_of_nat (length parsed_pages) @ str '' pages''),
                    info (str ''Step 3: Inferring modules and submodules...''),
                    info (str ''Inferred '' @ str_of_nat (length modules_dict)
                          @ str '' modules''),
                    info (str ''Step 4: Generating descriptions...''),
                    info (str ''Step 5: Formatting output...''),
                    error (str ''Pipeline error: '' @ e), error (fe e)],
               x_stats = None\<rparr>)"
    using extract_handler(1) [OF body_format_raises, of crawl urls pages parse parsed_pages logs4
          infer modules_dict generate lower described e fe]
      by simp
  have gen1: "(generate (content_or_page lower parsed_pages k (m_content md)) = Inl ex \<longrightarrow>
      describe_modules generate lower parsed_pages ((k, md) # rest) = Inl ex)"
    using describe_first_raises [of generate lower parsed_pages k md ex rest] by blast
  have gen2: "(module_description generate md = Inl ex \<longrightarrow>
      format_output generate ((k, md) # rest) = Inl ex)"
    using format_first_raises [of generate md ex k rest] by blast
  have pnoexc: "parse_pages parse pages acc logs \<noteq> Inl (Exception e, l)"
    by (rule parse_pages_no_exception)
  have pres: "((\<forall>p\<in>set pages. \<forall>b. parse (pg_html p) (pg_url p) \<noteq> Inl (BaseException b)) \<longrightarrow>
      parse_pages parse pages acc logs
        = Inr (acc @ List.map_filter
                       (\<lambda>p. case parse (pg_html p) (pg_url p) of
                               Inr parsed \<Rightarrow> Some parsed | Inl ex \<Rightarrow> None) pages,
               logs @ List.map_filter
                       (\<lambda>p. case parse (pg_html p) (pg_url p) of
                               Inl (Exception e) \<Rightarrow>
                                 Some (warning (str ''Error parsing '' @ pg_url p
                                                @ str '': '' @ e))
                             | Inl (BaseException e) \<Rightarrow> None
                             | Inr parsed \<Rightarrow> None) pages))"
    using parse_pages_result [of pages parse acc logs] by blast
  have complete: "(crawl urls = Inr pages \<and> pages \<noteq> []
        \<and> parse_pages parse pages []
             [info (str ''Starting extraction for '' @ str_of_nat (length urls) @ str '' URL(s)''),
              info (str ''Step 1: Crawling URLs...''),
              info (str ''Crawled '' @ str_of_nat (length pages) @ str '' pages''),
              info (str ''Step 2: Parsing HTML content...'')]
           = Inr (parsed_pages, logs4)
        \<and> parsed_pages \<noteq> []
        \<and> infer parsed_pages = Inr modules_dict
        \<and> describe_modules generate lower parsed_pages modules_dict = Inr described
        \<and> format_output generate described = Inr output_modules \<longrightarrow>
      pipeline_extract crawl parse infer generate lower fe urls
        = Inr \<lparr>x_modules = output_modules,
               x_logs = logs4 @
                   [info (str ''Parsed '' @ str_of_nat (length parsed_pages) @ str '' pages''),
                    info (str ''Step 3: Inferring modules and submodules...''),
                    info (str ''Inferred '' @ str_of_nat (length modules_dict)
                          @ str '' modules''),
                    info (str ''Step 4: Generating descriptions...''),
                    info (str ''Step 5: Formatting output...''),
                    info (str ''Extraction complete. Generated ''
                          @ str_of_nat (length output_modules) @ str '' modules'')],
               x_stats = Some (length pages, length parsed_pages, length output_modules)\<rparr>)"
    using extract_handler(3) [OF body_complete, of crawl urls pages parse parsed_pages logs4
          infer modules_dict generate lower described output_modules fe]
      by simp
  have basex: "(crawl urls = Inl (BaseException e) \<longrightarrow>
      pipeline_extract crawl parse infer generate lower fe urls = Inl (BaseException e))"
    using extract_handler(2) [OF body_crawl_raises, of crawl urls e parse infer generate lower fe]
      by simp
  show ?thesis
    by (intro conjI) (fact noexc crawlx inferx descx fmtx gen1 gen2 pnoexc pres complete basex)+
qed

end
